theory Spec2Isabelle
  imports Main "HOL-Library.AList"
begin

section \<open>The board of \<^verbatim>\<open>src/App.tsx\<close>\<close>

text \<open>
  The application keeps one board in a React state cell. Every operation of the
  component \<^verbatim>\<open>App\<close> replaces the cell through \<^verbatim>\<open>setBoard(prev => ...)\<close>; the updater is a
  pure function of the previous board, and it is that function which is modelled here: an
  operation takes its arguments and the previous board and returns the next board. An
  operation that returns before it calls \<^verbatim>\<open>setBoard\<close> returns the previous board.

  A TypeScript \<^verbatim>\<open>string\<close> is a \<^typ>\<open>string\<close>; each \<^typ>\<open>char\<close> stands for one
  code unit below 256. A \<^verbatim>\<open>Date\<close> that holds a time value is the \<^typ>\<open>int\<close> of its
  milliseconds since the epoch. The optional field \<^verbatim>\<open>description?\<close> is an option.
\<close>

subsection \<open>Data model (lines 4-21)\<close>

record card =
  card_id :: string
  card_title :: string
  description :: "string option"
  createdAt :: int

record klist =
  list_id :: string
  list_title :: string
  cards :: "card list"

record board =
  board_id :: string
  board_title :: string
  lists :: "klist list"

text \<open>The initial value of the state cell (lines 24-44).\<close>

definition initial_board :: board where
  "initial_board =
     \<lparr>board_id = ''1'', board_title = ''Mi Tablero de Trabajo'',
      lists =
        [\<lparr>list_id = ''1'', list_title = ''Por Hacer'', cards = []\<rparr>,
         \<lparr>list_id = ''2'', list_title = ''En Progreso'', cards = []\<rparr>,
         \<lparr>list_id = ''3'', list_title = ''Completado'', cards = []\<rparr>]\<rparr>"

subsection \<open>Platform functions the operations call\<close>

text \<open>
  \<^verbatim>\<open>Number.prototype.toString\<close> on an integer: its decimal digits, with a minus sign
  for a negative number. \<^verbatim>\<open>Date.now()\<close> is an integer far below \<open>10\<^sup>2\<^sup>1\<close>, where the
  decimal form is the one JavaScript prints.
\<close>

definition digit_char :: "int \<Rightarrow> char" where
  "digit_char d = char_of (48 + d)"

function digits_of :: "int \<Rightarrow> string" where
  "digits_of n =
     (if n < 10 then [digit_char n] else digits_of (n div 10) @ [digit_char (n mod 10)])"
  by pat_completeness auto
termination
  by (relation "measure nat") auto

declare digits_of.simps [simp del]

definition toString :: "int \<Rightarrow> string" where
  "toString i = (if i < 0 then CHR ''-'' # digits_of (- i) else digits_of i)"

text \<open>
  \<^verbatim>\<open>String.prototype.trim\<close> removes white space and line terminators from both ends.
  Of the code units below 256 these are tab, line feed, vertical tab, form feed, carriage
  return, space and the no-break space.
\<close>

definition is_white_space :: "char \<Rightarrow> bool" where
  "is_white_space c = (of_char c \<in> {9, 10, 11, 12, 13, 32, 160 :: nat})"

definition trim :: "string \<Rightarrow> string" where
  "trim s = rev (dropWhile is_white_space (rev (dropWhile is_white_space s)))"

subsection \<open>The operations of the board store (lines 72-156)\<close>

text \<open>
  \<^verbatim>\<open>addCard\<close> reads the clock twice: \<^verbatim>\<open>Date.now()\<close> for the identifier and
  \<^verbatim>\<open>new Date()\<close> for the creation time. The two readings are the arguments \<open>now\<close> and
  \<open>created\<close>. The new card has no \<^verbatim>\<open>description\<close> property.
\<close>

definition addCard :: "string \<Rightarrow> string \<Rightarrow> int \<Rightarrow> int \<Rightarrow> board \<Rightarrow> board" where
  "addCard listId title now created prev =
     (let newCard = \<lparr>card_id = toString now, card_title = title,
                      description = None, createdAt = created\<rparr>
      in prev\<lparr>lists :=
           map (\<lambda>list. if list_id list = listId
                        then list\<lparr>cards := cards list @ [newCard]\<rparr>
                        else list)
               (lists prev)\<rparr>)"

definition deleteCard :: "string \<Rightarrow> string \<Rightarrow> board \<Rightarrow> board" where
  "deleteCard listId cardId prev =
     prev\<lparr>lists :=
       map (\<lambda>list. if list_id list = listId
                    then list\<lparr>cards := filter (\<lambda>card. card_id card \<noteq> cardId) (cards list)\<rparr>
                    else list)
           (lists prev)\<rparr>"

text \<open>
  \<^verbatim>\<open>moveCard\<close>: \<^verbatim>\<open>Array.prototype.find\<close> is \<^const>\<open>List.find\<close> (the first match, or
  \<^verbatim>\<open>undefined\<close>); the optional chain \<^verbatim>\<open>sourceList?.cards.find(...)\<close> is the bind of
  the option type. The constant \<^verbatim>\<open>card\<close> of the source is \<open>found\<close> before the test
  \<^verbatim>\<open>if (!card)\<close> and \<open>moved\<close> after it (\<open>card\<close> is the cardinality of a set in HOL).
\<close>

definition moveCard :: "string \<Rightarrow> string \<Rightarrow> string \<Rightarrow> board \<Rightarrow> board" where
  "moveCard cardId sourceListId targetListId prev =
     (if sourceListId = targetListId then prev
      else
        let sourceList = List.find (\<lambda>list. list_id list = sourceListId) (lists prev);
            found = Option.bind sourceList (\<lambda>l. List.find (\<lambda>c. card_id c = cardId) (cards l))
        in case found of
             None \<Rightarrow> prev
           | Some moved \<Rightarrow>
               prev\<lparr>lists :=
                 map (\<lambda>list.
                        if list_id list = sourceListId
                        then list\<lparr>cards := filter (\<lambda>c. card_id c \<noteq> cardId) (cards list)\<rparr>
                        else if list_id list = targetListId
                        then list\<lparr>cards := cards list @ [moved]\<rparr>
                        else list)
                     (lists prev)\<rparr>)"

text \<open>
  \<^verbatim>\<open>addList\<close> reads the title from the input field \<^verbatim>\<open>newListTitle\<close> of the component
  and returns at once when the trimmed title is the empty string (the only falsy string).
\<close>

definition addList :: "string \<Rightarrow> int \<Rightarrow> board \<Rightarrow> board" where
  "addList newListTitle now prev =
     (if trim newListTitle = [] then prev
      else
        let newList = \<lparr>list_id = toString now, list_title = newListTitle, cards = []\<rparr>
        in prev\<lparr>lists := lists prev @ [newList]\<rparr>)"

definition updateListTitle :: "string \<Rightarrow> string \<Rightarrow> board \<Rightarrow> board" where
  "updateListTitle listId newTitle prev =
     prev\<lparr>lists :=
       map (\<lambda>list. if list_id list = listId then list\<lparr>list_title := newTitle\<rparr> else list)
           (lists prev)\<rparr>"

definition deleteList :: "string \<Rightarrow> board \<Rightarrow> board" where
  "deleteList listId prev =
     prev\<lparr>lists := filter (\<lambda>list. list_id list \<noteq> listId) (lists prev)\<rparr>"

subsection \<open>The guards of the callers (lines 289-307)\<close>

text \<open>
  The list component calls the store through two handlers that test the text first.
  \<^verbatim>\<open>handleAddCard\<close> returns before \<^verbatim>\<open>onAddCard\<close> when the trimmed input is empty;
  \<^verbatim>\<open>saveTitle\<close> calls \<^verbatim>\<open>onUpdateTitle\<close> only when the trimmed input is not empty. The
  setters of the input fields that follow do not touch the board and are left out.
\<close>

definition handleAddCard :: "klist \<Rightarrow> string \<Rightarrow> int \<Rightarrow> int \<Rightarrow> board \<Rightarrow> board" where
  "handleAddCard list newCardTitle now created prev =
     (if trim newCardTitle = [] then prev
      else addCard (list_id list) newCardTitle now created prev)"

definition saveTitle :: "klist \<Rightarrow> string \<Rightarrow> board \<Rightarrow> board" where
  "saveTitle list editingListTitle prev =
     (if trim editingListTitle \<noteq> [] then updateListTitle (list_id list) editingListTitle prev
      else prev)"

subsection \<open>The invariants of the data model\<close>

text \<open>
  The data model asks that list identifiers are unique in a board and that a card
  identifier is unique in the whole board (so that a card is in one list only).
\<close>

definition all_cards :: "board \<Rightarrow> card list" where
  "all_cards b = concat (map cards (lists b))"

definition unique_list_ids :: "board \<Rightarrow> bool" where
  "unique_list_ids b = distinct (map list_id (lists b))"

definition unique_card_ids :: "board \<Rightarrow> bool" where
  "unique_card_ids b = distinct (map card_id (all_cards b))"

definition wf_board :: "board \<Rightarrow> bool" where
  "wf_board b = (unique_list_ids b \<and> unique_card_ids b)"

text \<open>
  A run of the store: the operations as values, applied in order from a board. A clock
  reading is fresh for \<^verbatim>\<open>addCard\<close> when its decimal form is not the identifier of a card
  in the board, and for \<^verbatim>\<open>addList\<close> when it is not the identifier of a list.
\<close>

datatype op =
    AddCard string string int int
  | DeleteCard string string
  | MoveCard string string string
  | AddList string int
  | UpdateListTitle string string
  | DeleteList string

fun apply_op :: "op \<Rightarrow> board \<Rightarrow> board" where
  "apply_op (AddCard listId title now created) b = addCard listId title now created b"
| "apply_op (DeleteCard listId cardId) b = deleteCard listId cardId b"
| "apply_op (MoveCard cardId sourceListId targetListId) b = moveCard cardId sourceListId targetListId b"
| "apply_op (AddList newListTitle now) b = addList newListTitle now b"
| "apply_op (UpdateListTitle listId newTitle) b = updateListTitle listId newTitle b"
| "apply_op (DeleteList listId) b = deleteList listId b"

fun fresh_op :: "op \<Rightarrow> board \<Rightarrow> bool" where
  "fresh_op (AddCard listId title now created) b = (toString now \<notin> card_id ` set (all_cards b))"
| "fresh_op (AddList newListTitle now) b = (toString now \<notin> list_id ` set (lists b))"
| "fresh_op p b = True"

fun run :: "op list \<Rightarrow> board \<Rightarrow> board" where
  "run [] b = b"
| "run (p # ps) b = run ps (apply_op p b)"

fun fresh_run :: "op list \<Rightarrow> board \<Rightarrow> bool" where
  "fresh_run [] b = True"
| "fresh_run (p # ps) b = (fresh_op p b \<and> fresh_run ps (apply_op p b))"



subsection \<open>Persistence (lines 52-70)\<close>

text \<open>
  The values of JavaScript that the loader can meet. \<^verbatim>\<open>JSON.parse\<close> returns null, a
  boolean, a number, a string, an array or an object; the loader then stores \<^verbatim>\<open>Date\<close>
  objects into them. The type of numbers is the parameter \<open>'n\<close>: the loader never looks
  into a number. An array carries its elements and, beside them, the named properties
  that were assigned to it (none after \<^verbatim>\<open>JSON.parse\<close>). An object is the list of its
  properties in creation order. A \<^verbatim>\<open>Date\<close> is its time value, \<open>None\<close> for an invalid
  date.
\<close>

datatype 'n jsval =
    VNull
  | VBool bool
  | VNum 'n
  | VStr string
  | VArr "'n jsval list" "(string \<times> 'n jsval) list"
  | VObj "(string \<times> 'n jsval) list"
  | VDate "int option"

datatype js_error = SyntaxError | TypeError

text \<open>
  What \<^verbatim>\<open>localStorage.getItem('trello-board')\<close> returns, as far as the loader can tell
  strings apart: \<^verbatim>\<open>null\<close> when the key is absent; the empty string, the only string that
  is falsy; a string that \<^verbatim>\<open>JSON.parse\<close> rejects; a string that \<^verbatim>\<open>JSON.parse\<close> accepts,
  given by the value it denotes.
\<close>

datatype 'n saved = NoItem | EmptyString | NotJSON | JSONText "'n jsval"

text \<open>
  \<^verbatim>\<open>JSON.stringify(board)\<close> on a board of the declared type: the text it writes denotes
  the value below. A \<^verbatim>\<open>Date\<close> is written through \<^verbatim>\<open>toISOString\<close>, a function of the
  platform and a parameter here; a card without description has no such property.
\<close>

definition card_json :: "(int \<Rightarrow> string) \<Rightarrow> card \<Rightarrow> 'n jsval" where
  "card_json toISOString c =
     VObj ([(''id'', VStr (card_id c)), (''title'', VStr (card_title c))]
           @ (case description c of None \<Rightarrow> [] | Some d \<Rightarrow> [(''description'', VStr d)])
           @ [(''createdAt'', VStr (toISOString (createdAt c)))])"

definition list_json :: "(int \<Rightarrow> string) \<Rightarrow> klist \<Rightarrow> 'n jsval" where
  "list_json toISOString l =
     VObj [(''id'', VStr (list_id l)), (''title'', VStr (list_title l)),
           (''cards'', VArr (map (card_json toISOString) (cards l)) [])]"

definition board_json :: "(int \<Rightarrow> string) \<Rightarrow> board \<Rightarrow> 'n jsval" where
  "board_json toISOString b =
     VObj [(''id'', VStr (board_id b)), (''title'', VStr (board_title b)),
           (''lists'', VArr (map (list_json toISOString) (lists b)) [])]"

definition save :: "(int \<Rightarrow> string) \<Rightarrow> board \<Rightarrow> 'n saved" where
  "save toISOString b = JSONText (board_json toISOString b)"

text \<open>The object that the state cell holds for a board of the declared type.\<close>

definition js_of_card :: "card \<Rightarrow> 'n jsval" where
  "js_of_card c =
     VObj ([(''id'', VStr (card_id c)), (''title'', VStr (card_title c))]
           @ (case description c of None \<Rightarrow> [] | Some d \<Rightarrow> [(''description'', VStr d)])
           @ [(''createdAt'', VDate (Some (createdAt c)))])"

definition js_of_list :: "klist \<Rightarrow> 'n jsval" where
  "js_of_list l =
     VObj [(''id'', VStr (list_id l)), (''title'', VStr (list_title l)),
           (''cards'', VArr (map js_of_card (cards l)) [])]"

definition js_of_board :: "board \<Rightarrow> 'n jsval" where
  "js_of_board b =
     VObj [(''id'', VStr (board_id b)), (''title'', VStr (board_title b)),
           (''lists'', VArr (map js_of_list (lists b)) [])]"

text \<open>
  Reading a value back as a board of the declared type, field by field: \<open>None\<close> when
  a field of the interfaces is missing or has another type. Properties that the
  interfaces do not name are ignored.
\<close>

definition string_prop :: "(string \<times> 'n jsval) list \<Rightarrow> string \<Rightarrow> string option" where
  "string_prop ps k = (case map_of ps k of Some (VStr s) \<Rightarrow> Some s | _ \<Rightarrow> None)"

definition card_of_js :: "'n jsval \<Rightarrow> card option" where
  "card_of_js v =
     (case v of
        VObj ps \<Rightarrow>
          (case (string_prop ps ''id'', string_prop ps ''title'', map_of ps ''createdAt'') of
             (Some i, Some t, Some (VDate (Some d))) \<Rightarrow>
               (case map_of ps ''description'' of
                  None \<Rightarrow> Some \<lparr>card_id = i, card_title = t, description = None, createdAt = d\<rparr>
                | Some (VStr x) \<Rightarrow>
                    Some \<lparr>card_id = i, card_title = t, description = Some x, createdAt = d\<rparr>
                | Some _ \<Rightarrow> None)
           | _ \<Rightarrow> None)
      | _ \<Rightarrow> None)"

definition list_of_js :: "'n jsval \<Rightarrow> klist option" where
  "list_of_js v =
     (case v of
        VObj ps \<Rightarrow>
          (case (string_prop ps ''id'', string_prop ps ''title'', map_of ps ''cards'') of
             (Some i, Some t, Some (VArr cs _)) \<Rightarrow>
               map_option (\<lambda>cs'. \<lparr>list_id = i, list_title = t, cards = cs'\<rparr>)
                 (those (map card_of_js cs))
           | _ \<Rightarrow> None)
      | _ \<Rightarrow> None)"

definition board_of_js :: "'n jsval \<Rightarrow> board option" where
  "board_of_js v =
     (case v of
        VObj ps \<Rightarrow>
          (case (string_prop ps ''id'', string_prop ps ''title'', map_of ps ''lists'') of
             (Some i, Some t, Some (VArr ls _)) \<Rightarrow>
               map_option (\<lambda>ls'. \<lparr>board_id = i, board_title = t, lists = ls'\<rparr>)
                 (those (map list_of_js ls))
           | _ \<Rightarrow> None)
      | _ \<Rightarrow> None)"

text \<open>
  Reading the property \<open>p\<close> of a value, for the three names the loader reads
  (\<^verbatim>\<open>lists\<close>, \<^verbatim>\<open>cards\<close>, \<^verbatim>\<open>createdAt\<close>): a \<^verbatim>\<open>TypeError\<close> on \<^verbatim>\<open>null\<close>, \<^verbatim>\<open>undefined\<close>
  (here \<open>None\<close>) on a boolean, a number, a string or a date, which have no such property,
  and on an array or an object that does not own it.
\<close>

fun get_prop :: "'n jsval \<Rightarrow> string \<Rightarrow> js_error + 'n jsval option" where
  "get_prop VNull p = Inl TypeError"
| "get_prop (VObj ps) p = Inr (map_of ps p)"
| "get_prop (VArr xs ps) p = Inr (map_of ps p)"
| "get_prop v p = Inr None"

text \<open>
  A value with the property \<open>p\<close> set to \<open>x\<close>: an existing property keeps its place, a
  new one comes last. Only an array and an object keep properties in this model.
\<close>

fun with_prop :: "string \<Rightarrow> 'n jsval \<Rightarrow> 'n jsval \<Rightarrow> 'n jsval" where
  "with_prop p x (VObj ps) = VObj (AList.update p x ps)"
| "with_prop p x (VArr xs ps) = VArr xs (AList.update p x ps)"
| "with_prop p x v = v"

text \<open>
  The assignment \<^verbatim>\<open>v.p = x\<close>. The file is a module, hence strict code: on a boolean, a
  number or a string the assignment throws a \<^verbatim>\<open>TypeError\<close>, as it does on \<^verbatim>\<open>null\<close>.
  (A \<^verbatim>\<open>Date\<close> would take the property; no value that \<^verbatim>\<open>JSON.parse\<close> returns holds one.)
\<close>

fun put_prop :: "string \<Rightarrow> 'n jsval \<Rightarrow> 'n jsval \<Rightarrow> js_error + 'n jsval" where
  "put_prop p x VNull = Inl TypeError"
| "put_prop p x (VBool b) = Inl TypeError"
| "put_prop p x (VNum n) = Inl TypeError"
| "put_prop p x (VStr s) = Inl TypeError"
| "put_prop p x v = Inr (with_prop p x v)"

text \<open>
  \<^verbatim>\<open>xs.forEach(f)\<close> where \<open>f\<close> changes the element it is given: the elements in order,
  stopping at the first exception. The call itself throws a \<^verbatim>\<open>TypeError\<close> unless \<open>xs\<close> is
  an array (\<^verbatim>\<open>forEach\<close> is then the method of the prototype, unless a property of that
  name hides it: a value of JSON is never a function).
\<close>

fun forEach :: "('a \<Rightarrow> js_error + 'a) \<Rightarrow> 'a list \<Rightarrow> js_error + 'a list" where
  "forEach f [] = Inr []"
| "forEach f (x # xs) =
     (case f x of
        Inl e \<Rightarrow> Inl e
      | Inr y \<Rightarrow> (case forEach f xs of Inl e \<Rightarrow> Inl e | Inr ys \<Rightarrow> Inr (y # ys)))"

definition forEach_of ::
  "('n jsval \<Rightarrow> js_error + 'n jsval) \<Rightarrow> 'n jsval option \<Rightarrow> js_error + 'n jsval" where
  "forEach_of f x =
     (case x of
        Some (VArr xs ps) \<Rightarrow>
          (if map_of ps ''forEach'' = None
           then (case forEach f xs of Inl e \<Rightarrow> Inl e | Inr ys \<Rightarrow> Inr (VArr ys ps))
           else Inl TypeError)
      | _ \<Rightarrow> Inl TypeError)"

text \<open>
  The loader (lines 53-65). \<open>new_Date\<close> is the constructor \<^verbatim>\<open>new Date(x)\<close> of the
  platform on the value of a property (\<open>None\<close> for \<^verbatim>\<open>undefined\<close>): it returns a time
  value, or \<open>None\<close> for an invalid date, or throws (the conversion of an object to a
  primitive can). The walk changes the parsed value in place, card by card; the model
  rebuilds the list and the board around the changed cards (\<^const>\<open>with_prop\<close>). The
  last argument is the board in the state cell before the effect runs; \<^verbatim>\<open>setBoard\<close> is
  called only at the end of the walk, so an exception leaves no board behind, and nothing
  in the file catches one.
\<close>

definition revive_card ::
  "('n jsval option \<Rightarrow> js_error + int option) \<Rightarrow> 'n jsval \<Rightarrow> js_error + 'n jsval" where
  "revive_card new_Date c =
     (case get_prop c ''createdAt'' of
        Inl e \<Rightarrow> Inl e
      | Inr x \<Rightarrow>
          (case new_Date x of
             Inl e \<Rightarrow> Inl e
           | Inr d \<Rightarrow> put_prop ''createdAt'' (VDate d) c))"

definition revive_list ::
  "('n jsval option \<Rightarrow> js_error + int option) \<Rightarrow> 'n jsval \<Rightarrow> js_error + 'n jsval" where
  "revive_list new_Date list =
     (case get_prop list ''cards'' of
        Inl e \<Rightarrow> Inl e
      | Inr cs \<Rightarrow>
          (case forEach_of (revive_card new_Date) cs of
             Inl e \<Rightarrow> Inl e
           | Inr cs' \<Rightarrow> Inr (with_prop ''cards'' cs' list)))"

definition load ::
  "('n jsval option \<Rightarrow> js_error + int option) \<Rightarrow> 'n saved \<Rightarrow> 'n jsval \<Rightarrow> js_error + 'n jsval"
  where
  "load new_Date savedBoard prev =
     (case savedBoard of
        NoItem \<Rightarrow> Inr prev
      | EmptyString \<Rightarrow> Inr prev
      | NotJSON \<Rightarrow> Inl SyntaxError
      | JSONText parsedBoard \<Rightarrow>
          (case get_prop parsedBoard ''lists'' of
             Inl e \<Rightarrow> Inl e
           | Inr ls \<Rightarrow>
               (case forEach_of (revive_list new_Date) ls of
                  Inl e \<Rightarrow> Inl e
                | Inr ls' \<Rightarrow> Inr (with_prop ''lists'' ls' parsedBoard))))"

text \<open>
  The value that the loader hands to \<^verbatim>\<open>setBoard\<close> when the walk gets through, said
  without the walk: the parsed value in which every element of \<^verbatim>\<open>lists\<close> has every element
  of its \<^verbatim>\<open>cards\<close> carrying, as \<^verbatim>\<open>createdAt\<close>, the \<^verbatim>\<open>Date\<close> that \<^verbatim>\<open>new Date\<close> makes of
  the value the property had.
\<close>

definition own_prop :: "'n jsval \<Rightarrow> string \<Rightarrow> 'n jsval option" where
  "own_prop v p = (case get_prop v p of Inr x \<Rightarrow> x | Inl e \<Rightarrow> None)"

definition date_made :: "('n jsval option \<Rightarrow> js_error + int option) \<Rightarrow> 'n jsval option \<Rightarrow> int option"
  where
  "date_made new_Date x = (case new_Date x of Inr d \<Rightarrow> d | Inl e \<Rightarrow> None)"

definition map_elements :: "('n jsval \<Rightarrow> 'n jsval) \<Rightarrow> 'n jsval option \<Rightarrow> 'n jsval" where
  "map_elements f x =
     (case x of Some (VArr xs ps) \<Rightarrow> VArr (map f xs) ps | Some v \<Rightarrow> v | None \<Rightarrow> VNull)"

definition decoded_card :: "('n jsval option \<Rightarrow> js_error + int option) \<Rightarrow> 'n jsval \<Rightarrow> 'n jsval"
  where
  "decoded_card new_Date c =
     with_prop ''createdAt'' (VDate (date_made new_Date (own_prop c ''createdAt''))) c"

definition decoded_list :: "('n jsval option \<Rightarrow> js_error + int option) \<Rightarrow> 'n jsval \<Rightarrow> 'n jsval"
  where
  "decoded_list new_Date l =
     with_prop ''cards'' (map_elements (decoded_card new_Date) (own_prop l ''cards'')) l"

definition decoded :: "('n jsval option \<Rightarrow> js_error + int option) \<Rightarrow> 'n jsval \<Rightarrow> 'n jsval" where
  "decoded new_Date v =
     with_prop ''lists'' (map_elements (decoded_list new_Date) (own_prop v ''lists'')) v"

text \<open>
  The shape of a parsed value that the walk of the loader gets through. \<open>elements x\<close>
  are the elements of \<open>x\<close> when \<^verbatim>\<open>x.forEach\<close> is the method of arrays.
\<close>

definition constructible :: "('n jsval option \<Rightarrow> js_error + int option) \<Rightarrow> 'n jsval option \<Rightarrow> bool"
  where
  "constructible new_Date x = (case new_Date x of Inr d \<Rightarrow> True | Inl e \<Rightarrow> False)"

definition elements :: "'n jsval option \<Rightarrow> 'n jsval list option" where
  "elements x =
     (case x of
        Some (VArr xs ps) \<Rightarrow> if map_of ps ''forEach'' = None then Some xs else None
      | _ \<Rightarrow> None)"

fun card_loadable :: "('n jsval option \<Rightarrow> js_error + int option) \<Rightarrow> 'n jsval \<Rightarrow> bool" where
  "card_loadable new_Date (VObj ps) = constructible new_Date (map_of ps ''createdAt'')"
| "card_loadable new_Date (VArr xs ps) = constructible new_Date (map_of ps ''createdAt'')"
| "card_loadable new_Date (VDate d) = constructible new_Date None"
| "card_loadable new_Date v = False"

definition list_loadable :: "('n jsval option \<Rightarrow> js_error + int option) \<Rightarrow> 'n jsval \<Rightarrow> bool"
  where
  "list_loadable new_Date l =
     (case get_prop l ''cards'' of
        Inl e \<Rightarrow> False
      | Inr x \<Rightarrow>
          (case elements x of None \<Rightarrow> False | Some cs \<Rightarrow> list_all (card_loadable new_Date) cs))"

definition loadable :: "('n jsval option \<Rightarrow> js_error + int option) \<Rightarrow> 'n jsval \<Rightarrow> bool" where
  "loadable new_Date v =
     (case get_prop v ''lists'' of
        Inl e \<Rightarrow> False
      | Inr x \<Rightarrow>
          (case elements x of None \<Rightarrow> False | Some ls \<Rightarrow> list_all (list_loadable new_Date) ls))"

definition loads :: "js_error + 'a \<Rightarrow> bool" where
  "loads r = (case r of Inr v \<Rightarrow> True | Inl e \<Rightarrow> False)"

subsection \<open>A platform for the closed instances\<close>

text \<open>
  \<^verbatim>\<open>Date.prototype.toISOString\<close> and \<^verbatim>\<open>new Date(x)\<close> belong to the platform. The theorems
  about persistence hold for every platform; their instances at concrete boards use the
  one below. It prints a time value as \<^verbatim>\<open>YYYY-MM-DDTHH:mm:ss.sssZ\<close> in the proleptic
  Gregorian calendar (six digits and a sign for a year outside 0..9999) and reads exactly
  the texts it prints. Outside them the language leaves the result of \<^verbatim>\<open>new Date\<close> on a
  string to the implementation; this platform answers with an invalid date there.
\<close>

definition pad :: "nat \<Rightarrow> int \<Rightarrow> string" where
  "pad w n = replicate (w - length (digits_of n)) CHR ''0'' @ digits_of n"

definition civil_from_days :: "int \<Rightarrow> int \<times> int \<times> int" where
  "civil_from_days z0 =
     (let z = z0 + 719468;
          era = z div 146097;
          doe = z mod 146097;
          yoe = (doe - doe div 1460 + doe div 36524 - doe div 146096) div 365;
          doy = doe - (365 * yoe + yoe div 4 - yoe div 100);
          mp = (5 * doy + 2) div 153;
          d = doy - (153 * mp + 2) div 5 + 1;
          m = (if mp < 10 then mp + 3 else mp - 9);
          y = yoe + era * 400
      in (if m \<le> 2 then y + 1 else y, m, d))"

definition days_from_civil :: "int \<Rightarrow> int \<Rightarrow> int \<Rightarrow> int" where
  "days_from_civil y0 m d =
     (let y = (if m \<le> 2 then y0 - 1 else y0);
          era = y div 400;
          yoe = y mod 400;
          doy = (153 * (if m > 2 then m - 3 else m + 9) + 2) div 5 + d - 1;
          doe = yoe * 365 + yoe div 4 - yoe div 100 + doy
      in era * 146097 + doe - 719468)"

definition iso_toISOString :: "int \<Rightarrow> string" where
  "iso_toISOString t =
     (let (y, m, d) = civil_from_days (t div 86400000);
          ms = t mod 86400000;
          year = (if 0 \<le> y \<and> y \<le> 9999 then pad 4 y
                  else (if y < 0 then CHR ''-'' else CHR ''+'') # pad 6 \<bar>y\<bar>)
      in year @ ''-'' @ pad 2 m @ ''-'' @ pad 2 d @ ''T''
           @ pad 2 (ms div 3600000) @ '':'' @ pad 2 (ms div 60000 mod 60) @ '':''
           @ pad 2 (ms div 1000 mod 60) @ ''.'' @ pad 3 (ms mod 1000) @ ''Z'')"

definition digit_value :: "char \<Rightarrow> int option" where
  "digit_value c =
     (let n = of_char c :: int in if 48 \<le> n \<and> n \<le> 57 then Some (n - 48) else None)"

fun number_of_digits :: "int \<Rightarrow> string \<Rightarrow> int option" where
  "number_of_digits acc [] = Some acc"
| "number_of_digits acc (c # cs) =
     (case digit_value c of None \<Rightarrow> None | Some v \<Rightarrow> number_of_digits (10 * acc + v) cs)"

definition iso_fields :: "int \<Rightarrow> string \<Rightarrow> string \<Rightarrow> int option" where
  "iso_fields sign ys rest =
     (case rest of
        [d1, m1, m2, d2, a1, a2, tt, h1, h2, c1, n1, n2, c2, s1, s2, dot, f1, f2, f3, zz] \<Rightarrow>
          (if [d1, d2, tt, c1, c2, dot, zz] = ''--T::.Z'' then
             (case (number_of_digits 0 ys, number_of_digits 0 [m1, m2],
                    number_of_digits 0 [a1, a2], number_of_digits 0 [h1, h2],
                    number_of_digits 0 [n1, n2], number_of_digits 0 [s1, s2],
                    number_of_digits 0 [f1, f2, f3]) of
                (Some y, Some m, Some d, Some h, Some n, Some s, Some f) \<Rightarrow>
                  Some (days_from_civil (sign * y) m d * 86400000
                        + h * 3600000 + n * 60000 + s * 1000 + f)
              | _ \<Rightarrow> None)
           else None)
      | _ \<Rightarrow> None)"

definition iso_parse :: "string \<Rightarrow> int option" where
  "iso_parse s =
     (let r = (case s of
                 c # cs \<Rightarrow>
                   (if c = CHR ''+'' then iso_fields 1 (take 6 cs) (drop 6 cs)
                    else if c = CHR ''-'' then iso_fields (- 1) (take 6 cs) (drop 6 cs)
                    else iso_fields 1 (take 4 s) (drop 4 s))
               | [] \<Rightarrow> None)
      in case r of
           Some t \<Rightarrow> if iso_toISOString t = s then Some t else None
         | None \<Rightarrow> None)"

text \<open>
  \<^verbatim>\<open>new Date(x)\<close> of this platform, over integer numbers: \<^verbatim>\<open>undefined\<close> gives an
  invalid date, \<^verbatim>\<open>null\<close> the epoch, a boolean 0 or 1, a number its value when it is a
  time value (at most \<open>8.64 \<times> 10\<^sup>1\<^sup>5\<close> in magnitude), a string what \<^const>\<open>iso_parse\<close>
  reads. An object that owns a property \<^verbatim>\<open>toString\<close> cannot be converted to a primitive
  (no value of JSON is a function): a \<^verbatim>\<open>TypeError\<close>. Any other array or object is
  converted to a string that is not a date of the format above.
\<close>

fun iso_new_Date :: "int jsval option \<Rightarrow> js_error + int option" where
  "iso_new_Date None = Inr None"
| "iso_new_Date (Some VNull) = Inr (Some 0)"
| "iso_new_Date (Some (VBool b)) = Inr (Some (if b then 1 else 0))"
| "iso_new_Date (Some (VNum n)) = Inr (if \<bar>n\<bar> \<le> 8640000000000000 then Some n else None)"
| "iso_new_Date (Some (VStr s)) = Inr (iso_parse s)"
| "iso_new_Date (Some (VDate d)) = Inr d"
| "iso_new_Date (Some (VArr xs ps)) =
     (if map_of ps ''toString'' = None then Inr None else Inl TypeError)"
| "iso_new_Date (Some (VObj ps)) =
     (if map_of ps ''toString'' = None then Inr None else Inl TypeError)"

subsection \<open>A board with cards, for the closed instances\<close>

definition card_a :: card where
  "card_a = \<lparr>card_id = ''1700000000001'', card_title = ''Write spec'',
             description = None, createdAt = 1700000000001\<rparr>"

definition card_b :: card where
  "card_b = \<lparr>card_id = ''1700000000002'', card_title = ''Review'',
             description = Some ''second reading'', createdAt = 1700000000002\<rparr>"

definition card_c :: card where
  "card_c = \<lparr>card_id = ''1700000000003'', card_title = ''Ship'',
             description = None, createdAt = 1700000000003\<rparr>"

definition list_todo :: klist where
  "list_todo = \<lparr>list_id = ''1'', list_title = ''Por Hacer'', cards = [card_a, card_b]\<rparr>"

definition list_doing :: klist where
  "list_doing = \<lparr>list_id = ''2'', list_title = ''En Progreso'', cards = [card_c]\<rparr>"

definition list_done :: klist where
  "list_done = \<lparr>list_id = ''3'', list_title = ''Completado'', cards = []\<rparr>"

definition example_board :: board where
  "example_board =
     \<lparr>board_id = ''1'', board_title = ''Mi Tablero de Trabajo'',
      lists = [list_todo, list_doing, list_done]\<rparr>"








section \<open>Lists, identifiers and occurrences\<close>


lemma filter_id_remove1:
  "distinct (map f xs) \<Longrightarrow> x \<in> set xs \<Longrightarrow> filter (\<lambda>y. f y \<noteq> f x) xs = remove1 x xs"
proof (induction xs)
  case Nil
  then show ?case by simp
next
  case (Cons a xs)
  from Cons.prems have d: "distinct (map f xs)" and na: "f a \<notin> f ` set xs" by simp_all
  show ?case
  proof (cases "a = x")
    case True
    have "filter (\<lambda>y. f y \<noteq> f x) xs = xs"
      unfolding filter_id_conv using na True by (metis image_eqI)
    with True show ?thesis by simp
  next
    case False
    with Cons.prems have x: "x \<in> set xs" by simp
    with na have "f a \<noteq> f x" by (metis image_eqI)
    with False show ?thesis using Cons.IH[OF d x] by simp
  qed
qed

lemma distinct_concat_shrink:
  assumes "distinct (concat (map G ls))"
    and "\<And>l. l \<in> set ls \<Longrightarrow> distinct (H l) \<and> set (H l) \<subseteq> set (G l)"
  shows "distinct (concat (map H ls))"
  using assms
proof (induction ls)
  case Nil
  then show ?case by simp
next
  case (Cons a ls)
  from Cons.prems(1) have d: "distinct (concat (map G ls))"
    and disj: "set (G a) \<inter> (\<Union>x\<in>set ls. set (G x)) = {}"
    by simp_all
  have ih: "distinct (concat (map H ls))"
    by (rule Cons.IH[OF d]) (simp add: Cons.prems(2))
  have ha: "distinct (H a)" "set (H a) \<subseteq> set (G a)"
    using Cons.prems(2)[of a] by simp_all
  have sub: "(\<Union>x\<in>set ls. set (H x)) \<subseteq> (\<Union>x\<in>set ls. set (G x))"
  proof
    fix y assume "y \<in> (\<Union>x\<in>set ls. set (H x))"
    then obtain l where l: "l \<in> set ls" and y: "y \<in> set (H l)" by blast
    from Cons.prems(2)[of l] l y have "y \<in> set (G l)" by auto
    with l show "y \<in> (\<Union>x\<in>set ls. set (G x))" by blast
  qed
  have "set (H a) \<inter> (\<Union>x\<in>set ls. set (H x)) = {}"
    using disj ha(2) sub by blast
  with ih ha(1) show ?case by simp
qed

lemma concat_map_filter_if:
  "concat (map G (filter P ls)) = concat (map (\<lambda>l. if P l then G l else []) ls)"
  by (induction ls) simp_all

lemma in_concat_mapD: "y \<in> set (concat (map H ls)) \<Longrightarrow> \<exists>l\<in>set ls. y \<in> set (H l)"
  by (induction ls) auto

lemma in_concat_mapI: "l \<in> set ls \<Longrightarrow> y \<in> set (H l) \<Longrightarrow> y \<in> set (concat (map H ls))"
  by (induction ls) auto

lemma distinct_concat_append_fresh:
  assumes "distinct (map k ls)" "distinct (concat (map G ls))"
    and "x \<notin> set (concat (map G ls))"
  shows "distinct (concat (map (\<lambda>l. if k l = i then G l @ [x] else G l) ls))"
  using assms
proof (induction ls)
  case Nil
  then show ?case by simp
next
  case (Cons a ls)
  let ?H = "\<lambda>l. if k l = i then G l @ [x] else G l"
  from Cons.prems(2) have d: "distinct (concat (map G ls))"
    and da: "distinct (G a)"
    and disj: "set (G a) \<inter> (\<Union>x\<in>set ls. set (G x)) = {}"
    by simp_all
  from Cons.prems(1) have dk: "distinct (map k ls)" and ka: "k a \<notin> k ` set ls" by simp_all
  from Cons.prems(3) have fa: "x \<notin> set (G a)"
    and fr: "x \<notin> set (concat (map G ls))" by simp_all
  from fr have fr': "x \<notin> (\<Union>x\<in>set ls. set (G x))" by simp
  have ih: "distinct (concat (map ?H ls))"
    using Cons.IH[OF dk d fr] .
  show ?case
  proof (cases "k a = i")
    case True
    have same: "map ?H ls = map G ls"
    proof (rule map_cong[OF refl])
      fix l assume "l \<in> set ls"
      with ka True have "k l \<noteq> i" by (metis image_eqI)
      then show "?H l = G l" by simp
    qed
    have "distinct (G a @ [x])" using da fa by simp
    moreover have "set (G a @ [x]) \<inter> (\<Union>x\<in>set ls. set (G x)) = {}"
      using disj fr' by auto
    ultimately have "distinct ((G a @ [x]) @ concat (map G ls))"
      using d by simp
    moreover have "concat (map ?H (a # ls)) = (G a @ [x]) @ concat (map ?H ls)"
      using True by simp
    ultimately show ?thesis by (simp only: same)
  next
    case False
    have sub: "set (concat (map ?H ls)) \<subseteq> insert x (set (concat (map G ls)))"
    proof
      fix y assume "y \<in> set (concat (map ?H ls))"
      then obtain l where l: "l \<in> set ls" and y: "y \<in> set (?H l)"
        using in_concat_mapD[of y ?H ls] by blast
      then have "y = x \<or> y \<in> set (G l)" by (cases "k l = i") simp_all
      with l show "y \<in> insert x (set (concat (map G ls)))"
        using in_concat_mapI[of l ls y G] by blast
    qed
    from disj have "set (G a) \<inter> set (concat (map G ls)) = {}" by simp
    with sub fa have "set (G a) \<inter> set (concat (map ?H ls)) = {}" by blast
    with da ih have "distinct (G a @ concat (map ?H ls))"
      by (simp only: distinct_append simp_thms)
    moreover have "concat (map ?H (a # ls)) = G a @ concat (map ?H ls)"
      using False by simp
    ultimately show ?thesis by (simp only:)
  qed
qed


lemma card_ids_concat:
  "map card_id (all_cards b) = concat (map (\<lambda>l. map card_id (cards l)) (lists b))"
  by (simp add: all_cards_def map_concat comp_def)

lemma unique_card_ids_concat:
  "unique_card_ids b = distinct (concat (map (\<lambda>l. map card_id (cards l)) (lists b)))"
  by (simp only: unique_card_ids_def card_ids_concat)

lemma distinct_concat_part:
  "distinct (concat (map G ls)) \<Longrightarrow> l \<in> set ls \<Longrightarrow> distinct (G l)"
  by (induction ls) auto

lemma shared_id_same_list:
  "distinct (concat (map G ls)) \<Longrightarrow> l \<in> set ls \<Longrightarrow> l' \<in> set ls \<Longrightarrow>
   y \<in> set (G l) \<Longrightarrow> y \<in> set (G l') \<Longrightarrow> l = l'"
proof (induction ls)
  case Nil
  then show ?case by simp
next
  case (Cons a ls)
  from Cons.prems(1) have d: "distinct (concat (map G ls))"
    and disj: "set (G a) \<inter> set (concat (map G ls)) = {}"
    by simp_all
  have out: "\<And>k. k \<in> set ls \<Longrightarrow> y \<in> set (G a) \<Longrightarrow> y \<in> set (G k) \<Longrightarrow> False"
    using disj in_concat_mapI[of _ ls y G] by blast
  show ?case
  proof (cases "l = a")
    case la: True
    show ?thesis
    proof (cases "l' = a")
      case True
      with la show ?thesis by simp
    next
      case False
      with Cons.prems have "l' \<in> set ls" by simp
      with out[of l'] Cons.prems la show ?thesis by blast
    qed
  next
    case la: False
    with Cons.prems have l: "l \<in> set ls" by simp
    show ?thesis
    proof (cases "l' = a")
      case True
      with out[of l] l Cons.prems show ?thesis by blast
    next
      case False
      with Cons.prems have "l' \<in> set ls" by simp
      with Cons.IH[OF d l] Cons.prems show ?thesis by blast
    qed
  qed
qed

lemma distinct_count_le_1: "distinct xs \<Longrightarrow> count_list xs c \<le> 1"
  by (induction xs) auto



lemma count_list_concat_filter_le:
  "count_list (concat (map G (filter P ls))) c \<le> count_list (concat (map G ls)) c"
  by (induction ls) simp_all

lemma count_list_concat_dropped:
  "L \<in> set ls \<Longrightarrow> \<not> P L \<Longrightarrow>
   count_list (concat (map G (filter P ls))) c + count_list (G L) c
     \<le> count_list (concat (map G ls)) c"
proof (induction ls)
  case Nil
  then show ?case by simp
next
  case (Cons a ls)
  show ?case
  proof (cases "a = L")
    case True
    with Cons.prems(2) count_list_concat_filter_le[of G P ls c] show ?thesis by simp
  next
    case False
    with Cons.prems have "L \<in> set ls" by simp
    from Cons.IH[OF this Cons.prems(2)] show ?thesis by simp
  qed
qed

section \<open>The invariants along a run of the store\<close>

text \<open>
  The initial board satisfies the invariants of the data model, and every operation of
  the store keeps them, \<^verbatim>\<open>addCard\<close> and \<^verbatim>\<open>addList\<close> when the clock reading is fresh.
\<close>

lemma wf_initial_board: "wf_board initial_board"
  by (simp add: wf_board_def unique_list_ids_def unique_card_ids_def all_cards_def
      initial_board_def)

lemma wf_deleteCard:
  assumes "wf_board b"
  shows "wf_board (deleteCard listId cardId b)"
proof -
  let ?G = "\<lambda>l. map card_id (cards l)"
  let ?h = "\<lambda>list. if list_id list = listId
             then list\<lparr>cards := filter (\<lambda>c. card_id c \<noteq> cardId) (cards list)\<rparr> else list"
  have L: "lists (deleteCard listId cardId b) = map ?h (lists b)"
    by (simp add: deleteCard_def)
  from assms have dl: "distinct (map list_id (lists b))"
    and dc: "distinct (concat (map ?G (lists b)))"
    by (simp_all add: wf_board_def unique_list_ids_def unique_card_ids_concat)
  have ids: "map list_id (map ?h (lists b)) = map list_id (lists b)" by simp
  have "distinct (concat (map (\<lambda>l. ?G (?h l)) (lists b)))"
  proof (rule distinct_concat_shrink[OF dc])
    fix l assume l: "l \<in> set (lists b)"
    from distinct_concat_part[OF dc l] have "distinct (?G l)" .
    then show "distinct (?G (?h l)) \<and> set (?G (?h l)) \<subseteq> set (?G l)"
      by (auto simp: distinct_map_filter)
  qed
  then have "distinct (concat (map ?G (map ?h (lists b))))" by (simp add: comp_def)
  with dl ids show ?thesis
    by (simp only: wf_board_def unique_list_ids_def unique_card_ids_concat L simp_thms)
qed

lemma wf_deleteList:
  assumes "wf_board b"
  shows "wf_board (deleteList listId b)"
proof -
  let ?G = "\<lambda>l. map card_id (cards l)"
  let ?P = "\<lambda>list. list_id list \<noteq> listId"
  have L: "lists (deleteList listId b) = filter ?P (lists b)"
    by (simp add: deleteList_def)
  from assms have dl: "distinct (map list_id (lists b))"
    and dc: "distinct (concat (map ?G (lists b)))"
    by (simp_all add: wf_board_def unique_list_ids_def unique_card_ids_concat)
  from dl have ids: "distinct (map list_id (filter ?P (lists b)))" by (rule distinct_map_filter)
  have "distinct (concat (map (\<lambda>l. if ?P l then ?G l else []) (lists b)))"
  proof (rule distinct_concat_shrink[OF dc])
    fix l assume l: "l \<in> set (lists b)"
    from distinct_concat_part[OF dc l] have "distinct (?G l)" .
    then show "distinct (if ?P l then ?G l else []) \<and> set (if ?P l then ?G l else []) \<subseteq> set (?G l)"
      by simp
  qed
  then have "distinct (concat (map ?G (filter ?P (lists b))))"
    by (simp only: concat_map_filter_if)
  with ids show ?thesis
    by (simp only: wf_board_def unique_list_ids_def unique_card_ids_concat L simp_thms)
qed

lemma wf_updateListTitle:
  assumes "wf_board b"
  shows "wf_board (updateListTitle listId newTitle b)"
proof -
  let ?G = "\<lambda>l. map card_id (cards l)"
  let ?h = "\<lambda>list. if list_id list = listId then list\<lparr>list_title := newTitle\<rparr> else list"
  have L: "lists (updateListTitle listId newTitle b) = map ?h (lists b)"
    by (simp add: updateListTitle_def)
  have ids: "map list_id (map ?h (lists b)) = map list_id (lists b)" by simp
  have cs: "map ?G (map ?h (lists b)) = map ?G (lists b)" by simp
  from assms show ?thesis
    by (simp only: wf_board_def unique_list_ids_def unique_card_ids_concat L ids cs)
qed

lemma wf_addList:
  assumes "wf_board b" "toString now \<notin> list_id ` set (lists b)"
  shows "wf_board (addList newListTitle now b)"
proof (cases "trim newListTitle = []")
  case True
  with assms(1) show ?thesis by (simp add: addList_def)
next
  case False
  then have L: "lists (addList newListTitle now b)
      = lists b @ [\<lparr>list_id = toString now, list_title = newListTitle, cards = []\<rparr>]"
    by (simp add: addList_def)
  from assms show ?thesis
    by (simp add: wf_board_def unique_list_ids_def unique_card_ids_concat L)
qed

lemma wf_addCard:
  assumes "wf_board b" "toString now \<notin> card_id ` set (all_cards b)"
  shows "wf_board (addCard listId title now created b)"
proof -
  let ?G = "\<lambda>l. map card_id (cards l)"
  let ?new = "\<lparr>card_id = toString now, card_title = title, description = None, createdAt = created\<rparr>"
  let ?h = "\<lambda>list. if list_id list = listId then list\<lparr>cards := cards list @ [?new]\<rparr> else list"
  have L: "lists (addCard listId title now created b) = map ?h (lists b)"
    by (simp add: addCard_def)
  from assms(1) have dl: "distinct (map list_id (lists b))"
    and dc: "distinct (concat (map ?G (lists b)))"
    by (simp_all add: wf_board_def unique_list_ids_def unique_card_ids_concat)
  have ids: "map list_id (map ?h (lists b)) = map list_id (lists b)" by simp
  from assms(2) have fr: "toString now \<notin> set (concat (map ?G (lists b)))"
    by (simp only: card_ids_concat[symmetric] set_map simp_thms)
  have "map (\<lambda>l. ?G (?h l)) (lists b)
      = map (\<lambda>l. if list_id l = listId then ?G l @ [toString now] else ?G l) (lists b)"
    by (rule map_cong) simp_all
  with distinct_concat_append_fresh[OF dl dc fr, of listId]
  have "distinct (concat (map (\<lambda>l. ?G (?h l)) (lists b)))" by (simp only:)
  then have "distinct (concat (map ?G (map ?h (lists b))))" by (simp add: comp_def)
  with dl ids show ?thesis
    by (simp only: wf_board_def unique_list_ids_def unique_card_ids_concat L simp_thms)
qed


lemma moveCard_found:
  assumes "sourceListId \<noteq> targetListId"
    and "Option.bind (List.find (\<lambda>list. list_id list = sourceListId) (lists b))
           (\<lambda>l. List.find (\<lambda>c. card_id c = cardId) (cards l)) = Some moved"
  shows "lists (moveCard cardId sourceListId targetListId b)
       = map (\<lambda>list. if list_id list = targetListId
                      then list\<lparr>cards := cards list @ [moved]\<rparr> else list)
             (lists (deleteCard sourceListId cardId b))"
proof -
  have "map (\<lambda>list. if list_id list = sourceListId
                 then list\<lparr>cards := filter (\<lambda>c. card_id c \<noteq> cardId) (cards list)\<rparr>
                 else if list_id list = targetListId
                 then list\<lparr>cards := cards list @ [moved]\<rparr> else list) (lists b)
      = map ((\<lambda>list. if list_id list = targetListId
                      then list\<lparr>cards := cards list @ [moved]\<rparr> else list)
             \<circ> (\<lambda>list. if list_id list = sourceListId
                 then list\<lparr>cards := filter (\<lambda>c. card_id c \<noteq> cardId) (cards list)\<rparr>
                 else list)) (lists b)"
    by (rule map_cong) (use assms(1) in simp_all)
  with assms show ?thesis
    by (simp add: moveCard_def deleteCard_def)
qed

lemma wf_moveCard:
  assumes wf: "wf_board b"
  shows "wf_board (moveCard cardId sourceListId targetListId b)"
proof (cases "sourceListId = targetListId")
  case True
  with wf show ?thesis by (simp add: moveCard_def)
next
  case ne: False
  let ?found = "Option.bind (List.find (\<lambda>list. list_id list = sourceListId) (lists b))
           (\<lambda>l. List.find (\<lambda>c. card_id c = cardId) (cards l))"
  show ?thesis
  proof (cases ?found)
    case None
    with ne wf show ?thesis by (simp add: moveCard_def)
  next
    case (Some moved)
    let ?G = "\<lambda>l. map card_id (cards l)"
    let ?b1 = "deleteCard sourceListId cardId b"
    let ?h1 = "\<lambda>list. if list_id list = sourceListId
                 then list\<lparr>cards := filter (\<lambda>c. card_id c \<noteq> cardId) (cards list)\<rparr>
                 else list"
    let ?h2 = "\<lambda>list. if list_id list = targetListId
                 then list\<lparr>cards := cards list @ [moved]\<rparr> else list"
    from Some obtain S where fS: "List.find (\<lambda>list. list_id list = sourceListId) (lists b) = Some S"
      and fC: "List.find (\<lambda>c. card_id c = cardId) (cards S) = Some moved"
      by (cases "List.find (\<lambda>list. list_id list = sourceListId) (lists b)") simp_all
    from fS have S: "S \<in> set (lists b)" and Sid: "list_id S = sourceListId"
      by (auto simp: find_Some_iff)
    from fC have m: "moved \<in> set (cards S)" and mid: "card_id moved = cardId"
      by (auto simp: find_Some_iff)
    have L: "lists (moveCard cardId sourceListId targetListId b) = map ?h2 (lists ?b1)"
      using moveCard_found[OF ne Some] .
    have wf1: "wf_board ?b1" using wf by (rule wf_deleteCard)
    then have dl: "distinct (map list_id (lists ?b1))"
      and dc: "distinct (concat (map ?G (lists ?b1)))"
      by (simp_all add: wf_board_def unique_list_ids_def unique_card_ids_concat)
    from wf have dc0: "distinct (concat (map ?G (lists b)))"
      by (simp add: wf_board_def unique_card_ids_concat)
    have L1: "lists ?b1 = map ?h1 (lists b)" by (simp add: deleteCard_def)
    have fr: "cardId \<notin> set (concat (map ?G (lists ?b1)))"
    proof
      assume "cardId \<in> set (concat (map ?G (lists ?b1)))"
      then obtain l1 where l1: "l1 \<in> set (lists ?b1)" and c1: "cardId \<in> set (?G l1)"
        using in_concat_mapD[of cardId ?G "lists ?b1"] by blast
      from l1 L1 obtain l where l: "l \<in> set (lists b)" and e: "l1 = ?h1 l" by auto
      show False
      proof (cases "list_id l = sourceListId")
        case True
        with e c1 show False by auto
      next
        case False
        with e c1 have cl: "cardId \<in> set (?G l)" by simp
        from m mid have cS: "cardId \<in> set (?G S)" by auto
        from shared_id_same_list[OF dc0 l S cl cS] False Sid show False by simp
      qed
    qed
    have ids: "map list_id (map ?h2 (lists ?b1)) = map list_id (lists ?b1)" by simp
    have "map (\<lambda>l. ?G (?h2 l)) (lists ?b1)
        = map (\<lambda>l. if list_id l = targetListId then ?G l @ [cardId] else ?G l) (lists ?b1)"
      by (rule map_cong) (simp_all add: mid)
    with distinct_concat_append_fresh[OF dl dc fr, of targetListId]
    have "distinct (concat (map (\<lambda>l. ?G (?h2 l)) (lists ?b1)))" by (simp only:)
    then have "distinct (concat (map ?G (map ?h2 (lists ?b1))))" by (simp add: comp_def)
    with dl ids show ?thesis
      by (simp only: wf_board_def unique_list_ids_def unique_card_ids_concat L simp_thms)
  qed
qed

lemma wf_apply_op: "wf_board b \<Longrightarrow> fresh_op p b \<Longrightarrow> wf_board (apply_op p b)"
  by (cases p)
    (simp_all add: wf_addCard wf_deleteCard wf_moveCard wf_addList wf_updateListTitle wf_deleteList)

lemma wf_run: "wf_board b \<Longrightarrow> fresh_run ps b \<Longrightarrow> wf_board (run ps b)"
proof (induction ps arbitrary: b)
  case Nil
  then show ?case by simp
next
  case (Cons p ps)
  from Cons.prems have "wf_board (apply_op p b)" "fresh_run ps (apply_op p b)"
    by (simp_all add: wf_apply_op)
  then show ?case using Cons.IH by simp
qed

lemma wf_reachable: "fresh_run ps initial_board \<Longrightarrow> wf_board (run ps initial_board)"
  using wf_initial_board by (rule wf_run)

section \<open>Moving a card to another list\<close>







section \<open>Moving a card to a list that does not exist\<close>






section \<open>Deleting a list\<close>

text \<open>
  Claim C8. On every board and for every list \<open>L\<close> of it, \<^verbatim>\<open>deleteList(L.id)\<close> gives a board
  that does not contain \<open>L\<close> nor any list with the identifier of \<open>L\<close>; its lists are the
  lists of the given board with another identifier, in their order and unchanged (with
  unique list identifiers: the lists of the given board with \<open>L\<close> alone removed). Every card
  of \<open>L\<close> goes with it. A card of the program is an object, and the model keeps its
  fields, so that two cards with the same fields are one value that occurs twice; the
  removal is therefore stated by counting: for every card, the resulting board holds at
  least as many occurrences fewer than the given board as \<open>L\<close> held. Hence, when no card
  occurs twice in the given board, no card of \<open>L\<close> is in any list of the resulting board.
  On every board and for every identifier, \<^verbatim>\<open>deleteList\<close> applied twice gives the same
  board as applied once.
\<close>

theorem deleteList_removes:
  "(L \<in> set (lists b) \<longrightarrow>
      L \<notin> set (lists (deleteList (list_id L) b))
    \<and> list_id L \<notin> list_id ` set (lists (deleteList (list_id L) b))
    \<and> lists (deleteList (list_id L) b) = filter (\<lambda>l. list_id l \<noteq> list_id L) (lists b)
    \<and> (\<forall>c. count_list (all_cards (deleteList (list_id L) b)) c + count_list (cards L) c
              \<le> count_list (all_cards b) c)
    \<and> (distinct (all_cards b) \<longrightarrow>
          set (cards L) \<inter> set (all_cards (deleteList (list_id L) b)) = {})
    \<and> (unique_list_ids b \<longrightarrow> lists (deleteList (list_id L) b) = remove1 L (lists b)))
   \<and> deleteList listId (deleteList listId b) = deleteList listId b"
proof -
  let ?b' = "deleteList (list_id L) b"
  have idem: "deleteList listId (deleteList listId b) = deleteList listId b"
    by (simp add: deleteList_def)
  have F: "lists ?b' = filter (\<lambda>l. list_id l \<noteq> list_id L) (lists b)"
    by (simp add: deleteList_def)
  have n: "L \<notin> set (lists ?b')" by (simp add: F)
  have i: "list_id L \<notin> list_id ` set (lists ?b')" by (auto simp: F)
  have cnt: "count_list (all_cards ?b') c + count_list (cards L) c \<le> count_list (all_cards b) c"
    if L: "L \<in> set (lists b)" for c
    unfolding all_cards_def F
    by (rule count_list_concat_dropped[OF L]) simp
  have dis: "set (cards L) \<inter> set (all_cards ?b') = {}"
    if L: "L \<in> set (lists b)" and d: "distinct (all_cards b)"
  proof -
    have False if c1: "c \<in> set (cards L)" and c2: "c \<in> set (all_cards ?b')" for c
    proof -
      from c1 have "count_list (cards L) c > 0"
        using count_list_0_iff[of "cards L" c] by simp
      moreover from c2 have "count_list (all_cards ?b') c > 0"
        using count_list_0_iff[of "all_cards ?b'" c] by simp
      moreover from d have "count_list (all_cards b) c \<le> 1"
        by (rule distinct_count_le_1)
      ultimately show False using cnt[OF L, of c] by simp
    qed
    then show ?thesis by blast
  qed
  have rem: "lists ?b' = remove1 L (lists b)"
    if L: "L \<in> set (lists b)" and u: "unique_list_ids b"
    using filter_id_remove1[of list_id "lists b" L] L u
    by (simp add: F unique_list_ids_def)
  from idem F n i cnt dis rem show ?thesis by blast
qed

theorem deleteList_removes_witness:
  "list_todo \<in> set (lists example_board)
   \<and> list_todo \<notin> set (lists (deleteList (list_id list_todo) example_board))
   \<and> lists (deleteList (list_id list_todo) example_board) = [list_doing, list_done]
   \<and> distinct (all_cards example_board)
   \<and> set (cards list_todo) \<inter> set (all_cards (deleteList (list_id list_todo) example_board)) = {}
   \<and> deleteList ''1'' (deleteList ''1'' example_board) = deleteList ''1'' example_board"
proof -
  have h1: "list_todo \<in> set (lists example_board)" by code_simp
  have h2: "distinct (all_cards example_board)" by code_simp
  have f: "filter (\<lambda>l. list_id l \<noteq> list_id list_todo) (lists example_board)
           = [list_doing, list_done]" by code_simp
  from deleteList_removes[of list_todo example_board "''1''"] h1 h2 show ?thesis
    unfolding f[symmetric] by blast
qed

section \<open>Moving a card onto its own list\<close>

text \<open>
  Claim C9. For every board and all arguments, \<^verbatim>\<open>moveCard(cardId, sourceListId,
  targetListId)\<close> with the source identifier equal to the target identifier returns a
  board equal to the board it was given.
\<close>

theorem moveCard_same_list: "moveCard cardId listId listId b = b"
  by (simp add: moveCard_def)

section \<open>The fields of the board itself\<close>

text \<open>
  Claim C10. Each of the six operations of the store, on every board and for all
  arguments, returns a board with the identifier and the title of the board it was given:
  the \<^verbatim>\<open>lists\<close> field is the only one that is ever replaced.
\<close>

theorem store_keeps_board_id_and_title:
  "board_id (addCard listId title now created b) = board_id b
 \<and> board_title (addCard listId title now created b) = board_title b
 \<and> board_id (deleteCard listId cardId b) = board_id b
 \<and> board_title (deleteCard listId cardId b) = board_title b
 \<and> board_id (moveCard cardId sourceListId targetListId b) = board_id b
 \<and> board_title (moveCard cardId sourceListId targetListId b) = board_title b
 \<and> board_id (addList newListTitle now b) = board_id b
 \<and> board_title (addList newListTitle now b) = board_title b
 \<and> board_id (updateListTitle listId newTitle b) = board_id b
 \<and> board_title (updateListTitle listId newTitle b) = board_title b
 \<and> board_id (deleteList listId b) = board_id b
 \<and> board_title (deleteList listId b) = board_title b"
  by (simp add: addCard_def deleteCard_def moveCard_def addList_def updateListTitle_def
      deleteList_def Let_def split: option.split)

section \<open>Empty and blank titles\<close>

text \<open>
  Claim C3 says that the store operation \<^verbatim>\<open>addCard\<close> leaves the list as it was when the
  title trims to the empty string. The store operation does not look at the title: on the
  initial board \<^verbatim>\<open>addCard('1', '')\<close> and \<^verbatim>\<open>addCard('1', '   ')\<close> each put a card into
  the first list.
\<close>

theorem addCard_blank_title_counterexample:
  "trim '''' = [] \<and> trim ''   '' = []
   \<and> map cards (lists (addCard ''1'' '''' 1700000000000 1700000000000 initial_board))
       = [[\<lparr>card_id = ''1700000000000'', card_title = '''', description = None,
            createdAt = 1700000000000\<rparr>], [], []]
   \<and> map cards (lists (addCard ''1'' ''   '' 1700000000000 1700000000000 initial_board))
       = [[\<lparr>card_id = ''1700000000000'', card_title = ''   '', description = None,
            createdAt = 1700000000000\<rparr>], [], []]"
  by code_simp

text \<open>
  Claim C3, amended. The guard is in the caller: \<^verbatim>\<open>handleAddCard\<close> leaves the board
  as it was when the title trims to the empty string, and hands any other title to the
  store. The store operation \<^verbatim>\<open>addCard\<close>, whatever the title, appends a card with that
  title to every list that has the given identifier.
\<close>

theorem handleAddCard_blank_title:
  "(trim t = [] \<longrightarrow> handleAddCard L t now created b = b)
 \<and> (trim t \<noteq> [] \<longrightarrow> handleAddCard L t now created b = addCard (list_id L) t now created b)
 \<and> lists (addCard listId t now created b)
     = map (\<lambda>l. if list_id l = listId
                 then l\<lparr>cards := cards l @ [\<lparr>card_id = toString now, card_title = t,
                                               description = None, createdAt = created\<rparr>]\<rparr>
                 else l) (lists b)"
  by (simp add: handleAddCard_def addCard_def)

theorem handleAddCard_blank_title_witness:
  "trim ''   '' = []
   \<and> handleAddCard list_todo ''   '' 1700000000004 1700000000005 example_board = example_board"
proof -
  have h: "trim ''   '' = []" by code_simp
  from handleAddCard_blank_title[of "''   ''" list_todo 1700000000004 1700000000005 example_board]
    h show ?thesis by blast
qed

text \<open>
  Claim C7 says that the store operation \<^verbatim>\<open>updateListTitle\<close> leaves the title as it was
  when the new title trims to the empty string. The store operation does not look at the
  new title: on the initial board \<^verbatim>\<open>updateListTitle('1', '')\<close> empties the title of the
  first list, and after \<^verbatim>\<open>addList\<close> with the title \<^verbatim>\<open>Blocked\<close> the same call on the
  new list empties that title.
\<close>

theorem updateListTitle_blank_title_counterexample:
  "trim '''' = []
   \<and> map list_title (lists (updateListTitle ''1'' '''' initial_board))
       = ['''', ''En Progreso'', ''Completado'']
   \<and> map list_id (lists (addList ''Blocked'' 1700000000000 initial_board))
       = [''1'', ''2'', ''3'', ''1700000000000'']
   \<and> map list_title (lists (updateListTitle ''1700000000000'' ''''
                               (addList ''Blocked'' 1700000000000 initial_board)))
       = [''Por Hacer'', ''En Progreso'', ''Completado'', '''']"
  by code_simp

text \<open>
  Claim C7, amended. The guard is in the caller: \<^verbatim>\<open>saveTitle\<close> leaves the board as it
  was when the edited title trims to the empty string, and hands any other title to the
  store. The store operation \<^verbatim>\<open>updateListTitle\<close>, whatever the new title, makes it the
  title of every list that has the given identifier.
\<close>

theorem saveTitle_blank_title:
  "(trim t = [] \<longrightarrow> saveTitle L t b = b)
 \<and> (trim t \<noteq> [] \<longrightarrow> saveTitle L t b = updateListTitle (list_id L) t b)
 \<and> lists (updateListTitle listId t b)
     = map (\<lambda>l. if list_id l = listId then l\<lparr>list_title := t\<rparr> else l) (lists b)"
  by (simp add: saveTitle_def updateListTitle_def)

theorem saveTitle_blank_title_witness:
  "trim '' '' = [] \<and> saveTitle list_todo '' '' example_board = example_board
   \<and> trim ''Backlog'' \<noteq> []
   \<and> saveTitle list_todo ''Backlog'' example_board = updateListTitle ''1'' ''Backlog'' example_board"
proof -
  have h: "trim '' '' = []" by code_simp
  have g: "trim ''Backlog'' \<noteq> []" by code_simp
  have i: "list_id list_todo = ''1''" by code_simp
  from saveTitle_blank_title[of "'' ''" list_todo example_board]
    saveTitle_blank_title[of "''Backlog''" list_todo example_board] h g i
  show ?thesis by simp
qed

section \<open>Card identifiers from the clock\<close>

text \<open>
  Claim C6 says that card identifiers stay pairwise distinct in every board reachable
  from the initial board. The identifier of a new card is the clock reading
  \<^verbatim>\<open>Date.now()\<close> in decimal, and nothing compares it with the identifiers in the board: two
  calls of \<^verbatim>\<open>addCard\<close> on one clock reading give two cards with one identifier.
\<close>

theorem addCard_same_clock_reading:
  "map card_id (all_cards (run [AddCard ''1'' ''First'' 1700000000000 1700000000000,
                                AddCard ''2'' ''Second'' 1700000000000 1700000000000]
                            initial_board))
     = [''1700000000000'', ''1700000000000'']
   \<and> \<not> unique_card_ids (run [AddCard ''1'' ''First'' 1700000000000 1700000000000,
                                AddCard ''2'' ''Second'' 1700000000000 1700000000000]
                            initial_board)"
  by code_simp

section \<open>Saving and loading\<close>

lemma revive_card_json:
  assumes "new_Date (Some (VStr (toISOString (createdAt c)))) = Inr (Some (createdAt c))"
  shows "revive_card new_Date (card_json toISOString c) = Inr (js_of_card c)"
  using assms by (cases "description c") (simp_all add: revive_card_def card_json_def js_of_card_def)

lemma forEach_cong_Inr:
  "(\<And>x. x \<in> set xs \<Longrightarrow> f (g x) = Inr (h x)) \<Longrightarrow> forEach f (map g xs) = Inr (map h xs)"
  by (induction xs) simp_all

lemma revive_list_json:
  assumes "\<And>c. c \<in> set (cards l) \<Longrightarrow>
    new_Date (Some (VStr (toISOString (createdAt c)))) = Inr (Some (createdAt c))"
  shows "revive_list new_Date (list_json toISOString l) = Inr (js_of_list l)"
proof -
  have "forEach (revive_card new_Date) (map (card_json toISOString) (cards l))
        = Inr (map js_of_card (cards l))"
    by (rule forEach_cong_Inr) (simp add: revive_card_json assms)
  then show ?thesis
    by (simp add: revive_list_def list_json_def js_of_list_def forEach_of_def)
qed

lemma load_save:
  assumes "\<And>c. c \<in> set (all_cards b) \<Longrightarrow>
    new_Date (Some (VStr (toISOString (createdAt c)))) = Inr (Some (createdAt c))"
  shows "load new_Date (save toISOString b) prev = Inr (js_of_board b)"
proof -
  have "forEach (revive_list new_Date) (map (list_json toISOString) (lists b))
        = Inr (map js_of_list (lists b))"
  proof (rule forEach_cong_Inr)
    fix l assume l: "l \<in> set (lists b)"
    show "revive_list new_Date (list_json toISOString l) = Inr (js_of_list l)"
    proof (rule revive_list_json)
      fix c assume "c \<in> set (cards l)"
      with l have "c \<in> set (all_cards b)" by (auto simp: all_cards_def)
      then show "new_Date (Some (VStr (toISOString (createdAt c)))) = Inr (Some (createdAt c))"
        by (rule assms)
    qed
  qed
  then show ?thesis
    by (simp add: load_def save_def board_json_def js_of_board_def forEach_of_def)
qed

lemma card_of_js_of_card: "card_of_js (js_of_card c) = Some c"
  by (cases "description c") (simp_all add: card_of_js_def js_of_card_def string_prop_def)

lemma those_map_Some: "(\<And>x. x \<in> set xs \<Longrightarrow> f (g x) = Some x) \<Longrightarrow> those (map f (map g xs)) = Some xs"
  by (induction xs) simp_all

lemma list_of_js_of_list: "list_of_js (js_of_list l) = Some l"
proof -
  have "those (map card_of_js (map js_of_card (cards l))) = Some (cards l)"
    by (rule those_map_Some) (rule card_of_js_of_card)
  then show ?thesis
    by (cases l) (simp add: list_of_js_def js_of_list_def string_prop_def)
qed

lemma board_of_js_of_board: "board_of_js (js_of_board b) = Some b"
proof -
  have "those (map list_of_js (map js_of_list (lists b))) = Some (lists b)"
    by (rule those_map_Some) (rule list_of_js_of_list)
  then show ?thesis
    by (cases b) (simp add: board_of_js_def js_of_board_def string_prop_def)
qed

lemma forEach_loads: "loads (forEach f xs) = list_all (\<lambda>x. loads (f x)) xs"
  by (induction xs) (simp_all add: loads_def split: sum.splits)

lemma loads_case: "loads (case r of Inl e \<Rightarrow> Inl e | Inr y \<Rightarrow> Inr (g y)) = loads r"
  by (simp add: loads_def split: sum.splits)

lemma forEach_of_loads:
  "loads (forEach_of f x) =
     (case elements x of None \<Rightarrow> False | Some xs \<Rightarrow> list_all (\<lambda>x. loads (f x)) xs)"
proof (cases "elements x")
  case None
  then have "forEach_of f x = Inl TypeError"
    by (auto simp: forEach_of_def elements_def split: option.splits jsval.splits if_splits)
  with None show ?thesis by (simp add: loads_def)
next
  case (Some xs)
  then obtain ps where x: "x = Some (VArr xs ps)" and ps: "map_of ps ''forEach'' = None"
    by (auto simp: elements_def split: option.splits jsval.splits if_splits)
  have "loads (forEach_of f x) = loads (forEach f xs)"
    unfolding forEach_of_def x using ps by (simp add: loads_case)
  with Some show ?thesis by (simp add: forEach_loads)
qed

lemma revive_card_loads: "loads (revive_card new_Date c) = card_loadable new_Date c"
  by (cases c) (simp_all add: revive_card_def loads_def constructible_def split: sum.splits)

lemma revive_list_loads: "loads (revive_list new_Date l) = list_loadable new_Date l"
proof -
  have "loads (revive_list new_Date l) =
       (case get_prop l ''cards'' of Inl e \<Rightarrow> False
        | Inr x \<Rightarrow> loads (forEach_of (revive_card new_Date) x))"
    by (simp add: revive_list_def loads_def split: sum.splits)
  then show ?thesis
    by (simp add: list_loadable_def forEach_of_loads revive_card_loads
        split: sum.splits option.splits)
qed

lemma load_loads: "loads (load new_Date (JSONText v) prev) = loadable new_Date v"
proof -
  have "loads (load new_Date (JSONText v) prev) =
       (case get_prop v ''lists'' of Inl e \<Rightarrow> False
        | Inr x \<Rightarrow> loads (forEach_of (revive_list new_Date) x))"
    by (simp add: load_def loads_def split: sum.splits)
  then show ?thesis
    by (simp add: loadable_def forEach_of_loads revive_list_loads
        split: sum.splits option.splits)
qed


text \<open>
  Claim C4. For every board \<open>B\<close> of the declared type, loading what \<^verbatim>\<open>save\<close> wrote for
  \<open>B\<close> puts into the state cell the object of \<open>B\<close>, which reads back as \<open>B\<close> field by field:
  the identifier and title of the board, the lists in order with their identifiers and
  titles, the cards in order with their identifiers, titles, optional descriptions and
  creation times. The creation times come back exactly (a time value is a whole number of
  milliseconds), on a platform whose \<^verbatim>\<open>new Date\<close> reads back the text that
  \<^verbatim>\<open>toISOString\<close> prints for each creation time in the board.
\<close>

theorem load_save_roundtrip:
  assumes "\<forall>c\<in>set (all_cards b).
     new_Date (Some (VStr (toISOString (createdAt c)))) = Inr (Some (createdAt c))"
  shows "load new_Date (save toISOString b) prev = Inr (js_of_board b :: 'n jsval)
       \<and> board_of_js (js_of_board b :: 'n jsval) = Some b"
proof (rule conjI)
  show "load new_Date (save toISOString b) prev = Inr (js_of_board b)"
    by (rule load_save) (use assms in blast)
  show "board_of_js (js_of_board b :: 'n jsval) = Some b"
    by (rule board_of_js_of_board)
qed

lemma iso_example_times:
  "iso_toISOString 1700000000001 = ''2023-11-14T22:13:20.001Z''"
  "iso_toISOString 1700000000002 = ''2023-11-14T22:13:20.002Z''"
  "iso_toISOString 1700000000003 = ''2023-11-14T22:13:20.003Z''"
  by code_simp+

lemma iso_example_texts:
  "iso_parse ''2023-11-14T22:13:20.001Z'' = Some 1700000000001"
  "iso_parse ''2023-11-14T22:13:20.002Z'' = Some 1700000000002"
  "iso_parse ''2023-11-14T22:13:20.003Z'' = Some 1700000000003"
  by code_simp+

theorem load_save_roundtrip_witness:
  "list_all (\<lambda>c. iso_new_Date (Some (VStr (iso_toISOString (createdAt c)))) = Inr (Some (createdAt c)))
     (all_cards example_board)
   \<and> load iso_new_Date (save iso_toISOString example_board) (js_of_board initial_board)
       = Inr (js_of_board example_board)
   \<and> board_of_js (js_of_board example_board :: int jsval) = Some example_board"
proof -
  have h: "list_all (\<lambda>c. iso_new_Date (Some (VStr (iso_toISOString (createdAt c))))
                          = Inr (Some (createdAt c))) (all_cards example_board)"
    by (simp add: all_cards_def example_board_def list_todo_def list_doing_def list_done_def
        card_a_def card_b_def card_c_def iso_example_times iso_example_texts)
  then have "\<forall>c\<in>set (all_cards example_board).
     iso_new_Date (Some (VStr (iso_toISOString (createdAt c)))) = Inr (Some (createdAt c))"
    unfolding list_all_iff .
  from load_save_roundtrip[OF this, of "js_of_board initial_board"] h show ?thesis
    by (intro conjI) (erule conjunct1 conjunct2 | assumption)+
qed

lemma forEach_Inr_map:
  "(\<And>x. x \<in> set xs \<Longrightarrow> f x = Inr (g x)) \<Longrightarrow> forEach f xs = Inr (map g xs)"
  by (induction xs) simp_all

lemma forEach_Inl:
  "forEach f xs = Inl e \<Longrightarrow> \<exists>x\<in>set xs. f x = Inl e"
  by (induction xs) (auto split: sum.splits)

lemma forEach_of_Inr_map:
  assumes "elements x = Some xs" and "\<And>y. y \<in> set xs \<Longrightarrow> f y = Inr (g y)"
  shows "forEach_of f x = Inr (map_elements g x)"
proof -
  from assms(1) obtain ps where x: "x = Some (VArr xs ps)" and ps: "map_of ps ''forEach'' = None"
    by (auto simp: elements_def split: option.splits jsval.splits if_splits)
  from forEach_Inr_map[of xs f g] assms(2) have "forEach f xs = Inr (map g xs)" by blast
  then show ?thesis by (simp add: forEach_of_def map_elements_def x ps)
qed

lemma forEach_of_Inl:
  assumes "forEach_of f x = Inl e"
  shows "e = TypeError \<or> (\<exists>y. f y = Inl e)"
proof (cases "elements x")
  case None
  then have "forEach_of f x = Inl TypeError"
    by (auto simp: forEach_of_def elements_def split: option.splits jsval.splits if_splits)
  with assms show ?thesis by simp
next
  case (Some xs)
  then obtain ps where x: "x = Some (VArr xs ps)" and ps: "map_of ps ''forEach'' = None"
    by (auto simp: elements_def split: option.splits jsval.splits if_splits)
  from assms have "forEach f xs = Inl e"
    by (simp add: forEach_of_def x ps split: sum.splits)
  from forEach_Inl[OF this] show ?thesis by blast
qed

lemma revive_card_decoded:
  "card_loadable new_Date c \<Longrightarrow> revive_card new_Date c = Inr (decoded_card new_Date c)"
  by (cases c)
    (simp_all add: revive_card_def decoded_card_def own_prop_def date_made_def constructible_def
      split: sum.splits)

lemma revive_card_Inl:
  "revive_card new_Date c = Inl e \<Longrightarrow> e = TypeError \<or> (\<exists>x. new_Date x = Inl e)"
  by (cases c) (auto simp: revive_card_def split: sum.splits)

lemma revive_list_decoded:
  assumes "list_loadable new_Date l"
  shows "revive_list new_Date l = Inr (decoded_list new_Date l)"
proof -
  from assms obtain x cs where g: "get_prop l ''cards'' = Inr x" and e: "elements x = Some cs"
    and a: "list_all (card_loadable new_Date) cs"
    by (auto simp: list_loadable_def split: sum.splits option.splits)
  have "forEach_of (revive_card new_Date) x = Inr (map_elements (decoded_card new_Date) x)"
  proof (rule forEach_of_Inr_map[OF e])
    fix y assume "y \<in> set cs"
    with a have "card_loadable new_Date y" by (simp add: list_all_iff)
    then show "revive_card new_Date y = Inr (decoded_card new_Date y)"
      by (rule revive_card_decoded)
  qed
  then show ?thesis by (simp add: revive_list_def decoded_list_def own_prop_def g)
qed

lemma revive_list_Inl:
  assumes "revive_list new_Date l = Inl e"
  shows "e = TypeError \<or> (\<exists>x. new_Date x = Inl e)"
proof (cases "get_prop l ''cards''")
  case (Inl e')
  then have "e' = TypeError" by (cases l) simp_all
  with Inl assms show ?thesis by (simp add: revive_list_def)
next
  case (Inr x)
  with assms have "forEach_of (revive_card new_Date) x = Inl e"
    by (simp add: revive_list_def split: sum.splits)
  from forEach_of_Inl[OF this] revive_card_Inl[of new_Date _ e] show ?thesis by blast
qed

lemma load_decoded:
  assumes "loadable new_Date v"
  shows "load new_Date (JSONText v) prev = Inr (decoded new_Date v)"
proof -
  from assms obtain x ls where g: "get_prop v ''lists'' = Inr x" and e: "elements x = Some ls"
    and a: "list_all (list_loadable new_Date) ls"
    by (auto simp: loadable_def split: sum.splits option.splits)
  have "forEach_of (revive_list new_Date) x = Inr (map_elements (decoded_list new_Date) x)"
  proof (rule forEach_of_Inr_map[OF e])
    fix y assume "y \<in> set ls"
    with a have "list_loadable new_Date y" by (simp add: list_all_iff)
    then show "revive_list new_Date y = Inr (decoded_list new_Date y)"
      by (rule revive_list_decoded)
  qed
  then show ?thesis by (simp add: load_def decoded_def own_prop_def g)
qed

lemma load_Inl:
  assumes "load new_Date (JSONText v) prev = Inl e"
  shows "e = TypeError \<or> (\<exists>x. new_Date x = Inl e)"
proof (cases "get_prop v ''lists''")
  case (Inl e')
  then have "e' = TypeError" by (cases v) simp_all
  with Inl assms show ?thesis by (simp add: load_def)
next
  case (Inr x)
  with assms have "forEach_of (revive_list new_Date) x = Inl e"
    by (simp add: load_def split: sum.splits)
  from forEach_of_Inl[OF this] revive_list_Inl[of new_Date _ e] show ?thesis by blast
qed

lemma iso_new_Date_throws: "iso_new_Date x = Inl e \<Longrightarrow> e = TypeError"
  by (cases x rule: iso_new_Date.cases) (auto split: if_splits)

text \<open>
  Claim C5 says that the loader never raises. It calls \<^verbatim>\<open>JSON.parse\<close> and walks the
  parsed value outside any \<^verbatim>\<open>try\<close>: on a string that is not JSON (\<^verbatim>\<open>not json\<close>, say) the
  exception of \<^verbatim>\<open>JSON.parse\<close> leaves the effect, and on the text \<^verbatim>\<open>{}\<close>, whose value
  has no \<^verbatim>\<open>lists\<close>, the walk throws a \<^verbatim>\<open>TypeError\<close>.
\<close>

theorem load_malformed_counterexample:
  "load iso_new_Date NotJSON (js_of_board initial_board) = Inl SyntaxError
   \<and> load iso_new_Date (JSONText (VObj [])) (js_of_board initial_board) = Inl TypeError"
  by code_simp

text \<open>
  Claim C5, amended. The loader keeps the board of the state cell (the default board at
  mount) when the key is absent or holds the empty string. On a string that
  \<^verbatim>\<open>JSON.parse\<close> rejects it raises a \<^verbatim>\<open>SyntaxError\<close>. On a string that \<^verbatim>\<open>JSON.parse\<close>
  accepts, when the parsed value has the shape \<^const>\<open>loadable\<close> (its \<^verbatim>\<open>lists\<close> is an
  array of values whose \<^verbatim>\<open>cards\<close> is an array of objects or arrays on whose
  \<^verbatim>\<open>createdAt\<close> the constructor \<^verbatim>\<open>new Date\<close> does not throw), it yields the decoded
  board: the parsed value in which every card carries as \<^verbatim>\<open>createdAt\<close> the \<^verbatim>\<open>Date\<close> made
  of the value it had (\<^const>\<open>decoded\<close>). When the parsed value does not have that shape
  the loader raises: a \<^verbatim>\<open>TypeError\<close>, or the exception that \<^verbatim>\<open>new Date\<close> threw; it is a
  \<^verbatim>\<open>TypeError\<close> on every platform whose \<^verbatim>\<open>new Date\<close> throws no \<^verbatim>\<open>SyntaxError\<close>. No
  exception is caught and no default board replaces a malformed one.
\<close>

theorem load_outcomes:
  "load new_Date NoItem prev = Inr prev
 \<and> load new_Date EmptyString prev = Inr prev
 \<and> load new_Date NotJSON prev = Inl SyntaxError
 \<and> (loadable new_Date v \<longrightarrow> load new_Date (JSONText v) prev = Inr (decoded new_Date v))
 \<and> (\<not> loadable new_Date v \<longrightarrow>
      (\<exists>e. load new_Date (JSONText v) prev = Inl e
           \<and> (e = TypeError \<or> (\<exists>x. new_Date x = Inl e))))
 \<and> (\<not> loadable new_Date v \<and> (\<forall>x. new_Date x \<noteq> Inl SyntaxError) \<longrightarrow>
      load new_Date (JSONText v) prev = Inl TypeError)"
proof -
  have a: "load new_Date NoItem prev = Inr prev" "load new_Date EmptyString prev = Inr prev"
    "load new_Date NotJSON prev = Inl SyntaxError"
    by (simp_all add: load_def)
  have b: "load new_Date (JSONText v) prev = Inr (decoded new_Date v)" if "loadable new_Date v"
    using that by (rule load_decoded)
  have c: "\<exists>e. load new_Date (JSONText v) prev = Inl e
           \<and> (e = TypeError \<or> (\<exists>x. new_Date x = Inl e))" if n: "\<not> loadable new_Date v"
  proof -
    from n have "\<not> loads (load new_Date (JSONText v) prev)" by (simp add: load_loads)
    then obtain e where e: "load new_Date (JSONText v) prev = Inl e"
      by (cases "load new_Date (JSONText v) prev") (simp_all add: loads_def)
    with load_Inl[OF e] show ?thesis by blast
  qed
  have d: "load new_Date (JSONText v) prev = Inl TypeError"
    if n: "\<not> loadable new_Date v" and t: "\<forall>x. new_Date x \<noteq> Inl SyntaxError"
  proof -
    from c[OF n] obtain e where e: "load new_Date (JSONText v) prev = Inl e"
      and k: "e = TypeError \<or> (\<exists>x. new_Date x = Inl e)" by blast
    from k t have "e = TypeError" by (cases e) auto
    with e show ?thesis by simp
  qed
  from a b c d show ?thesis by blast
qed

theorem load_outcomes_witness:
  "load iso_new_Date NoItem (js_of_board initial_board) = Inr (js_of_board initial_board)
 \<and> loadable iso_new_Date
      (VObj [(''lists'', VArr [VObj [(''cards'', VArr [VObj [(''createdAt'', VNull)]] [])]] [])])
 \<and> load iso_new_Date
      (JSONText (VObj [(''lists'', VArr [VObj [(''cards'', VArr [VObj [(''createdAt'', VNull)]] [])]] [])]))
      (js_of_board initial_board)
    = Inr (VObj [(''lists'',
             VArr [VObj [(''cards'', VArr [VObj [(''createdAt'', VDate (Some 0))]] [])]] [])])
 \<and> \<not> loadable iso_new_Date (VObj [(''lists'', VArr [VNull] [])])
 \<and> load iso_new_Date (JSONText (VObj [(''lists'', VArr [VNull] [])])) (js_of_board initial_board)
    = Inl TypeError"
proof -
  let ?v = "VObj [(''lists'', VArr [VObj [(''cards'', VArr [VObj [(''createdAt'', VNull)]] [])]] [])]
            :: int jsval"
  let ?w = "VObj [(''lists'', VArr [VNull] [])] :: int jsval"
  have a: "loadable iso_new_Date ?v" by code_simp
  have d: "decoded iso_new_Date ?v
     = VObj [(''lists'', VArr [VObj [(''cards'', VArr [VObj [(''createdAt'', VDate (Some 0))]] [])]] [])]"
    by code_simp
  have b: "\<not> loadable iso_new_Date ?w" by code_simp
  have t: "\<forall>x. iso_new_Date x \<noteq> Inl SyntaxError"
    using iso_new_Date_throws by fastforce
  from load_outcomes[of iso_new_Date "js_of_board initial_board" ?v]
    load_outcomes[of iso_new_Date "js_of_board initial_board" ?w] a b t
  show ?thesis unfolding d[symmetric] by blast
qed

end
